theory Spec2Isabelle
  imports Main "HOL-Library.Sublist"
begin

section \<open>The subscribe command handler\<close>

text \<open>
  This theory embeds \<^verbatim>\<open>src/bot/src/handler/commands/subscribe.py\<close>:

  \<^verbatim>\<open>class Subscribe(Base):\<close>
  \<^verbatim>\<open>    name = 'subscribe'\<close>
  \<^verbatim>\<open>    def execute(self, command):\<close>
  \<^verbatim>\<open>        if not command.is_private():\<close>
  \<^verbatim>\<open>            self.reply(command, 'Groups currently are not supported!')\<close>
  \<^verbatim>\<open>        try:\<close>
  \<^verbatim>\<open>            channel = subscriptions.subscribe(command)\<close>
  \<^verbatim>\<open>            self.reply(command, <success text>.format(channel['name'], channel['url']))\<close>
  \<^verbatim>\<open>        except GenericSubscriptionError as e:\<close>
  \<^verbatim>\<open>            self.reply(command, str(e))\<close>

  The method has no \<^verbatim>\<open>return\<close> statement: after the group reply control continues
  with the \<^verbatim>\<open>try\<close> block.
\<close>

subsection \<open>Values\<close>

text \<open>
  The exceptions that can travel through \<^verbatim>\<open>execute\<close>. A
  \<^verbatim>\<open>GenericSubscriptionError\<close> (or a subclass of it) carries the text that
  \<^verbatim>\<open>str(e)\<close> gives; \<^verbatim>\<open>KeyError\<close> is the builtin raised by a
  subscript on a missing key and carries the key; every other exception class is
  \<open>OtherException\<close> with its class name. \<^verbatim>\<open>KeyError\<close> derives from
  \<^verbatim>\<open>LookupError\<close>, so an \<^verbatim>\<open>except GenericSubscriptionError\<close>
  clause does not select it.
\<close>

datatype py_exception =
    GenericSubscriptionError string
  | KeyError string
  | OtherException string

text \<open>
  The value \<^verbatim>\<open>subscriptions.subscribe\<close> returns is read by subscript
  (\<^verbatim>\<open>channel['name']\<close>), so it is a dictionary: an association list from
  keys to values, each value given by the text \<^verbatim>\<open>format\<close> prints for it.
\<close>

type_synonym py_dict = "(string \<times> string) list"

definition getitem :: "py_dict \<Rightarrow> string \<Rightarrow> py_exception + string" where
  "getitem d k = (case map_of d k of None \<Rightarrow> Inl (KeyError k) | Some v \<Rightarrow> Inr v)"

text \<open>
  Modelled from the spec: the \<^verbatim>\<open>Command\<close> class is not among the source files.
  The spec gives \<^verbatim>\<open>Command{ subscriberContext, rawChannelIdentifier }\<close> and a
  subscriber as an opaque identifier with a capability flag (private or group);
  \<^verbatim>\<open>command.is_private()\<close> reads that flag.
\<close>

record subscriber =
  subscriber_id :: string
  private_capable :: bool

record command =
  subscriber_context :: subscriber
  raw_channel_identifier :: string

definition is_private :: "command \<Rightarrow> bool" where
  "is_private c = private_capable (subscriber_context c)"

subsection \<open>Effects\<close>

text \<open>
  What \<^verbatim>\<open>execute\<close> does to the outside is a chronological trace of calls on its
  collaborators, together with the state of the subscription service, which
  \<^verbatim>\<open>subscriptions.subscribe\<close> may change.
\<close>

datatype event =
    IsPrivateCalled command
  | SubscribeCalled command
  | ReplySent command string

record 's world =
  events :: "event list"
  service :: 's

text \<open>
  Modelled from the spec: \<^verbatim>\<open>Base.reply\<close> is not among the source files. The spec
  gives the reply channel \<^verbatim>\<open>reply(Command, text)\<close>; here it sends the text, which
  the trace records, and returns normally.
\<close>

definition reply :: "command \<Rightarrow> string \<Rightarrow> 's world \<Rightarrow> 's world" where
  "reply c txt w = w\<lparr>events := events w @ [ReplySent c txt]\<rparr>"

fun replies :: "event list \<Rightarrow> string list" where
  "replies [] = []"
| "replies (ReplySent c txt # es) = txt # replies es"
| "replies (e # es) = replies es"

subsection \<open>The handler\<close>

definition groups_not_supported :: string where
  "groups_not_supported = ''Groups currently are not supported!''"

text \<open>
  The success text: the format string has two \<^verbatim>\<open>{}\<close> fields, the first inside
  double quotes (character 0x22), the second after an at sign inside parentheses.
\<close>

definition success_message :: "string \<Rightarrow> string \<Rightarrow> string" where
  "success_message name url =
     ''Successfully subscribed to '' @ [CHR 0x22] @ name @ [CHR 0x22] @ '' (@'' @ url @ '')''"

text \<open>
  The argument of the \<^verbatim>\<open>reply\<close> call inside \<^verbatim>\<open>try\<close>: Python evaluates
  \<^verbatim>\<open>channel['name']\<close> first and \<^verbatim>\<open>channel['url']\<close> second, and either
  subscript raises \<^verbatim>\<open>KeyError\<close> on a missing key.
\<close>

definition format_success :: "py_dict \<Rightarrow> py_exception + string" where
  "format_success channel =
     (case getitem channel ''name'' of
        Inl e \<Rightarrow> Inl e
      | Inr name \<Rightarrow>
          (case getitem channel ''url'' of
             Inl e \<Rightarrow> Inl e
           | Inr url \<Rightarrow> Inr (success_message name url)))"

text \<open>
  \<^verbatim>\<open>Subscribe.execute\<close>. The subscription service is a parameter: a function from
  the command and the service's state to what the call does (\<open>Inr\<close> the returned
  dictionary, \<open>Inl\<close> the raised exception) and the service's new state; the call is
  taken to end in one of the two ways. The result of \<open>execute\<close> is \<open>Inr ()\<close> when
  the method returns (\<^verbatim>\<open>None\<close>) and \<open>Inl e\<close> when the exception \<open>e\<close> leaves
  it. The \<^verbatim>\<open>except\<close> clause guards the whole \<^verbatim>\<open>try\<close> body, the subscripts
  and the formatting of the success text included.
\<close>

definition execute ::
  "(command \<Rightarrow> 's \<Rightarrow> (py_exception + py_dict) \<times> 's) \<Rightarrow> command \<Rightarrow> 's world
     \<Rightarrow> (py_exception + unit) \<times> 's world" where
  "execute subscribe command w0 =
     (let w1 = w0\<lparr>events := events w0 @ [IsPrivateCalled command]\<rparr>;
          w2 = (if \<not> is_private command
                then reply command groups_not_supported w1 else w1);
          (outcome, s) = subscribe command (service w2);
          w3 = w2\<lparr>events := events w2 @ [SubscribeCalled command], service := s\<rparr>;
          body = (case outcome of
                    Inl e \<Rightarrow> Inl e
                  | Inr channel \<Rightarrow> format_success channel)
      in case body of
           Inr txt \<Rightarrow> (Inr (), reply command txt w3)
         | Inl (GenericSubscriptionError msg) \<Rightarrow> (Inr (), reply command msg w3)
         | Inl e \<Rightarrow> (Inl e, w3))"

text \<open>The events one run of \<open>execute\<close> adds to the trace, and the replies among them.\<close>

definition run_events ::
  "(command \<Rightarrow> 's \<Rightarrow> (py_exception + py_dict) \<times> 's) \<Rightarrow> command \<Rightarrow> 's \<Rightarrow> event list" where
  "run_events subscribe command s =
     events (snd (execute subscribe command \<lparr>events = [], service = s\<rparr>))"

definition run_replies ::
  "(command \<Rightarrow> 's \<Rightarrow> (py_exception + py_dict) \<times> 's) \<Rightarrow> command \<Rightarrow> 's \<Rightarrow> string list" where
  "run_replies subscribe command s = replies (run_events subscribe command s)"

definition run_result ::
  "(command \<Rightarrow> 's \<Rightarrow> (py_exception + py_dict) \<times> 's) \<Rightarrow> command \<Rightarrow> 's \<Rightarrow> py_exception + unit" where
  "run_result subscribe command s =
     fst (execute subscribe command \<lparr>events = [], service = s\<rparr>)"

definition run_service ::
  "(command \<Rightarrow> 's \<Rightarrow> (py_exception + py_dict) \<times> 's) \<Rightarrow> command \<Rightarrow> 's \<Rightarrow> 's" where
  "run_service subscribe command s =
     service (snd (execute subscribe command \<lparr>events = [], service = s\<rparr>))"

section \<open>The subscription manager and its store\<close>

text \<open>
  \<^verbatim>\<open>subscriptions\<close> (imported from \<^verbatim>\<open>src.config\<close>) is not among the
  source files; the handler above takes it as a parameter. The definitions of this
  section follow the spec's sections 3, 4.1 and 4.3.
\<close>

text \<open>
  Modelled from the spec: a Channel has an identifier, a display name, a source URL and
  a last-seen-content cursor.
\<close>

record channel =
  channel_id :: string
  display_name :: string
  source_url :: string
  cursor :: nat

text \<open>
  Modelled from the spec: a Subscription is a (Subscriber, Channel) pair with a creation
  timestamp; the table is keyed by (subscriberId, channelId). The store is the list of
  its rows in insertion order, so that a duplicate row would be visible.
\<close>

record subscription =
  sub_subscriber :: string
  sub_channel :: string
  created :: nat

type_synonym store = "subscription list"

text \<open>Modelled from the spec: the error kinds of section 7 that the command layer sees.\<close>

datatype error_kind =
    UnsupportedContext
  | UnknownChannel
  | AmbiguousChannel
  | AlreadySubscribed channel
  | NotSubscribed

text \<open>
  Modelled from the spec: the rows the Subscription table holds under the key
  (subscriberId, channelId).
\<close>

definition pair_subscriptions :: "string \<Rightarrow> string \<Rightarrow> store \<Rightarrow> subscription list" where
  "pair_subscriptions sid cid st =
     filter (\<lambda>x. sub_subscriber x = sid \<and> sub_channel x = cid) st"

text \<open>
  Modelled from the spec: the invariant of section 3, at most one active Subscription per
  (Subscriber, Channel) pair.
\<close>

definition pair_key :: "subscription \<Rightarrow> string \<times> string" where
  "pair_key x = (sub_subscriber x, sub_channel x)"

definition one_per_pair :: "store \<Rightarrow> bool" where
  "one_per_pair st = distinct (map pair_key st)"

text \<open>
  Modelled from the spec: \<^verbatim>\<open>add(subscriber, channel) -> Subscription | fails(AlreadySubscribed)\<close>
  of the Subscription Store (the Store is missing from the source files). The creation
  timestamp is the argument \<open>now\<close>.
\<close>

definition store_add ::
  "nat \<Rightarrow> subscriber \<Rightarrow> channel \<Rightarrow> store \<Rightarrow> error_kind + (subscription \<times> store)" where
  "store_add now sub ch st =
     (if pair_subscriptions (subscriber_id sub) (channel_id ch) st \<noteq> []
      then Inl (AlreadySubscribed ch)
      else (let x = \<lparr>sub_subscriber = subscriber_id sub, sub_channel = channel_id ch,
                      created = now\<rparr>
            in Inr (x, st @ [x])))"

text \<open>
  Modelled from the spec: \<^verbatim>\<open>subscribe(subscriber, rawIdentifier) -> Channel | fails(...)\<close>
  of the Subscription Manager (missing from the source files), with the policy of
  section 4.3 in its order: (1) reject a subscriber whose context is not private-capable
  with \<open>UnsupportedContext\<close>; (2) resolve the channel through the Registry and
  propagate its failure; (3) attempt the Store's add, which signals
  \<open>AlreadySubscribed\<close> with the existing channel; (4) on success return the channel.
  The Channel Registry's \<^verbatim>\<open>resolve\<close> is a parameter with a state \<open>'r\<close> of its
  own (its cache and the channels it has registered).
\<close>

definition manager_subscribe ::
  "(string \<Rightarrow> 'r \<Rightarrow> (error_kind + channel) \<times> 'r) \<Rightarrow> nat \<Rightarrow> subscriber \<Rightarrow> string
     \<Rightarrow> 'r \<times> store \<Rightarrow> (error_kind + channel) \<times> 'r \<times> store" where
  "manager_subscribe resolve now sub raw rs =
     (if \<not> private_capable sub then (Inl UnsupportedContext, rs)
      else (case resolve raw (fst rs) of
              (Inl e, reg) \<Rightarrow> (Inl e, reg, snd rs)
            | (Inr ch, reg) \<Rightarrow>
                (case store_add now sub ch (snd rs) of
                   Inl e \<Rightarrow> (Inl e, reg, snd rs)
                 | Inr (x, st) \<Rightarrow> (Inr ch, reg, st))))"

section \<open>The fanout dispatcher\<close>

text \<open>
  The dispatcher is not among the source files either; the definitions of this section
  follow the spec's sections 3, 4.4 and 6.
\<close>

text \<open>
  Modelled from the spec: the transport's \<^verbatim>\<open>deliver(subscriber, ContentItem) -> success | fails(Transient, Permanent)\<close>.
\<close>

datatype delivery_outcome = Success | Transient | Permanent

text \<open>
  Modelled from the spec: the outcome a DeliveryRecord marks, a successful delivery or a
  delivery marked \<open>Failed\<close>.
\<close>

datatype record_outcome = Succeeded | Failed

text \<open>
  Modelled from the spec: a DeliveryRecord is a (Channel, content-item-id, Subscriber)
  tuple marking a delivery attempt outcome, in a table keyed by (channelId, itemId,
  subscriberId).
\<close>

record delivery_record =
  dr_channel :: string
  dr_item :: nat
  dr_subscriber :: string
  dr_outcome :: record_outcome

text \<open>
  Modelled from the spec: the dispatcher's state, that is the DeliveryRecord table it
  owns, the state of the transport collaborator, and the log of the deliveries the transport has accepted (channel, item
  and subscriber), in order.
\<close>

record 't dispatcher =
  records :: "delivery_record list"
  transport :: 't
  delivered :: "(string \<times> nat \<times> string) list"

text \<open>
  Modelled from the spec: whether a successful DeliveryRecord exists for the item and the
  subscriber.
\<close>

definition has_success :: "string \<Rightarrow> nat \<Rightarrow> string \<Rightarrow> delivery_record list \<Rightarrow> bool" where
  "has_success ch i sub rs =
     (filter (\<lambda>r. dr_channel r = ch \<and> dr_item r = i \<and> dr_subscriber r = sub
                   \<and> dr_outcome r = Succeeded) rs \<noteq> [])"

definition record_outcome_of ::
  "string \<Rightarrow> nat \<Rightarrow> string \<Rightarrow> record_outcome \<Rightarrow> delivery_record" where
  "record_outcome_of ch i sub out =
     \<lparr>dr_channel = ch, dr_item = i, dr_subscriber = sub, dr_outcome = out\<rparr>"

text \<open>
  Modelled from the spec: one subscriber's delivery. The first argument after the
  transport is the number of attempts left under the fixed attempt cap. On success the
  DeliveryRecord is written; a transient failure is retried; when the cap is used up, or
  on a permanent failure, the subscriber's delivery is marked \<open>Failed\<close>. (The backoff
  delay between attempts is time, and is not part of the state.)
\<close>

fun attempt_delivery ::
  "(string \<Rightarrow> nat \<Rightarrow> 't \<Rightarrow> delivery_outcome \<times> 't) \<Rightarrow> nat \<Rightarrow> string \<Rightarrow> nat \<Rightarrow> string
     \<Rightarrow> 't dispatcher \<Rightarrow> 't dispatcher" where
  "attempt_delivery deliver 0 ch i sub d =
     d\<lparr>records := records d @ [record_outcome_of ch i sub Failed]\<rparr>"
| "attempt_delivery deliver (Suc k) ch i sub d =
     (case deliver sub i (transport d) of
        (Success, t) \<Rightarrow>
          d\<lparr>records := records d @ [record_outcome_of ch i sub Succeeded],
            transport := t,
            delivered := delivered d @ [(ch, i, sub)]\<rparr>
      | (Transient, t) \<Rightarrow> attempt_delivery deliver k ch i sub (d\<lparr>transport := t\<rparr>)
      | (Permanent, t) \<Rightarrow>
          d\<lparr>records := records d @ [record_outcome_of ch i sub Failed],
            transport := t\<rparr>)"

text \<open>
  Modelled from the spec: the dispatch of one item to the subscribers enumerated at
  dispatch time (the snapshot). A subscriber with a successful DeliveryRecord for the
  item is skipped; every other one is attempted, and a failure does not stop the loop.
  The snapshot is walked in order.
\<close>

fun dispatch ::
  "(string \<Rightarrow> nat \<Rightarrow> 't \<Rightarrow> delivery_outcome \<times> 't) \<Rightarrow> nat \<Rightarrow> string \<Rightarrow> nat \<Rightarrow> string list
     \<Rightarrow> 't dispatcher \<Rightarrow> 't dispatcher" where
  "dispatch deliver cap ch i [] d = d"
| "dispatch deliver cap ch i (sub # subs) d =
     dispatch deliver cap ch i subs
       (if has_success ch i sub (records d) then d
        else attempt_delivery deliver cap ch i sub d)"

text \<open>
  How many deliveries of item \<open>i\<close> of channel \<open>ch\<close> the transport has accepted for a
  subscriber.
\<close>

definition deliveries_of :: "string \<Rightarrow> nat \<Rightarrow> string \<Rightarrow> 't dispatcher \<Rightarrow> nat" where
  "deliveries_of ch i sub d = count_list (delivered d) (ch, i, sub)"

section \<open>Sample inputs\<close>

text \<open>
  The spec's scenario: subscriber U1 (private) and the identifier tech-news, which
  resolves to the channel named Tech News; and a command from a group chat.
\<close>

definition u1 :: subscriber where
  "u1 = \<lparr>subscriber_id = ''U1'', private_capable = True\<rparr>"

definition g1 :: subscriber where
  "g1 = \<lparr>subscriber_id = ''G1'', private_capable = False\<rparr>"

definition u1_command :: command where
  "u1_command = \<lparr>subscriber_context = u1, raw_channel_identifier = ''tech-news''\<rparr>"

definition g1_command :: command where
  "g1_command = \<lparr>subscriber_context = g1, raw_channel_identifier = ''tech-news''\<rparr>"

definition tech_news :: py_dict where
  "tech_news = [(''name'', ''Tech News''), (''url'', ''https://example.com/tech'')]"

definition tech_channel :: channel where
  "tech_channel = \<lparr>channel_id = ''tech-news'', display_name = ''Tech News'',
     source_url = ''https://example.com/tech'', cursor = 0\<rparr>"

text \<open>Services that stand in for \<^verbatim>\<open>subscriptions.subscribe\<close> on one call.\<close>

definition returning :: "py_dict \<Rightarrow> command \<Rightarrow> 's \<Rightarrow> (py_exception + py_dict) \<times> 's" where
  "returning ch c s = (Inr ch, s)"

definition raising :: "py_exception \<Rightarrow> command \<Rightarrow> 's \<Rightarrow> (py_exception + py_dict) \<times> 's" where
  "raising e c s = (Inl e, s)"

text \<open>
  A service with no context check of its own: it stores the caller's subscriber id with
  the identifier and returns the channel.
\<close>

definition enrolling ::
  "py_dict \<Rightarrow> command \<Rightarrow> (string \<times> string) list
     \<Rightarrow> (py_exception + py_dict) \<times> (string \<times> string) list" where
  "enrolling ch c s =
     (Inr ch, s @ [(subscriber_id (subscriber_context c), raw_channel_identifier c)])"

text \<open>
  A registry that knows tech-news only; a dispatcher that has delivered nothing yet; and
  the transport of the spec's last scenario, where the delivery of item 2 to subscriber U2
  fails permanently and every other delivery succeeds.
\<close>

definition tech_registry :: "string \<Rightarrow> unit \<Rightarrow> (error_kind + channel) \<times> unit" where
  "tech_registry raw r =
     (if raw = ''tech-news'' then (Inr tech_channel, r) else (Inl UnknownChannel, r))"

definition fresh_dispatcher :: "unit dispatcher" where
  "fresh_dispatcher = \<lparr>records = [], transport = (), delivered = []\<rparr>"

definition scenario_transport :: "string \<Rightarrow> nat \<Rightarrow> unit \<Rightarrow> delivery_outcome \<times> unit" where
  "scenario_transport sub i t = (if sub = ''U2'' \<and> i = 2 then Permanent else Success, t)"

section \<open>Properties of the handler\<close>

lemma execute_events_cases:
  "run_events subscribe command s =
     [IsPrivateCalled command]
     @ (if is_private command then [] else [ReplySent command groups_not_supported])
     @ [SubscribeCalled command]
     @ (case fst (subscribe command s) of
          Inl (GenericSubscriptionError msg) \<Rightarrow> [ReplySent command msg]
        | Inl e \<Rightarrow> []
        | Inr channel \<Rightarrow>
            (case format_success channel of
               Inr txt \<Rightarrow> [ReplySent command txt]
             | Inl (GenericSubscriptionError msg) \<Rightarrow> [ReplySent command msg]
             | Inl e \<Rightarrow> []))"
  by (simp add: run_events_def execute_def reply_def Let_def
      split: prod.splits sum.splits py_exception.splits)

lemma run_result_cases:
  "run_result subscribe command s =
     (case fst (subscribe command s) of
        Inl (GenericSubscriptionError msg) \<Rightarrow> Inr ()
      | Inl e \<Rightarrow> Inl e
      | Inr channel \<Rightarrow>
          (case format_success channel of
             Inr txt \<Rightarrow> Inr ()
           | Inl (GenericSubscriptionError msg) \<Rightarrow> Inr ()
           | Inl e \<Rightarrow> Inl e))"
  by (simp add: run_result_def execute_def reply_def Let_def
      split: prod.splits sum.splits py_exception.splits)

lemma run_service_eq: "run_service subscribe command s = snd (subscribe command s)"
  by (simp add: run_service_def execute_def reply_def Let_def
      split: prod.splits sum.splits py_exception.splits)

lemma execute_appends:
  "events (snd (execute subscribe command w)) = events w @ run_events subscribe command (service w)"
  by (simp add: run_events_def execute_def reply_def Let_def
      split: prod.splits sum.splits py_exception.splits)

lemma format_success_both:
  "map_of c ''name'' = Some name \<Longrightarrow> map_of c ''url'' = Some url
     \<Longrightarrow> format_success c = Inr (success_message name url)"
  by (simp add: format_success_def getitem_def)

lemma format_success_no_name:
  "map_of c ''name'' = None \<Longrightarrow> format_success c = Inl (KeyError ''name'')"
  by (simp add: format_success_def getitem_def)

lemma format_success_no_url:
  "map_of c ''name'' = Some name \<Longrightarrow> map_of c ''url'' = None
     \<Longrightarrow> format_success c = Inl (KeyError ''url'')"
  by (simp add: format_success_def getitem_def)

lemma groups_is_no_success: "groups_not_supported \<noteq> success_message name url"
  by (simp add: groups_not_supported_def success_message_def)

lemma success_message_sublists:
  "sublist name (success_message name url) \<and> sublist url (success_message name url)"
proof
  show "sublist name (success_message name url)"
    unfolding success_message_def sublist_def by (metis append.assoc)
  show "sublist url (success_message name url)"
    unfolding success_message_def sublist_def by (metis append.assoc)
qed

lemma replies_returned:
  assumes "fst (subscribe command s) = Inr c"
    and "map_of c ''name'' = Some name" and "map_of c ''url'' = Some url"
  shows "run_replies subscribe command s =
           (if is_private command then [] else [groups_not_supported]) @ [success_message name url]"
  using assms by (simp add: run_replies_def execute_events_cases format_success_both)

lemma replies_generic:
  assumes "fst (subscribe command s) = Inl (GenericSubscriptionError msg)"
  shows "run_replies subscribe command s =
           (if is_private command then [] else [groups_not_supported]) @ [msg]"
  using assms by (simp add: run_replies_def execute_events_cases)

lemma replies_propagating:
  assumes "run_result subscribe command s = Inl e"
  shows "run_replies subscribe command s =
           (if is_private command then [] else [groups_not_supported])"
  using assms by (auto simp add: run_replies_def execute_events_cases run_result_cases
     split: sum.splits py_exception.splits)

lemma no_success_among_propagating:
  assumes "run_result subscribe command s = Inl e"
  shows "success_message name url \<notin> set (run_replies subscribe command s)"
  using groups_is_no_success [of name url] by (auto simp add: replies_propagating [OF assms])

subsection \<open>Order of the policy steps\<close>

text \<open>
  Claim C6. For every command and every subscription service, \<^verbatim>\<open>execute\<close> consults
  \<^verbatim>\<open>command.is_private()\<close> before it calls \<^verbatim>\<open>subscriptions.subscribe(command)\<close>:
  the trace of one run splits at its only call of the service, and the capability check
  lies in the part before it. Channel resolution and Store mutation happen inside the
  service, hence after the check.
\<close>

theorem is_private_before_subscribe:
  "\<exists>pre post. run_events subscribe command s = pre @ SubscribeCalled command # post
      \<and> IsPrivateCalled command \<in> set pre
      \<and> (\<forall>c. SubscribeCalled c \<notin> set pre) \<and> (\<forall>c. SubscribeCalled c \<notin> set post)"
proof -
  let ?pre = "[IsPrivateCalled command]
     @ (if is_private command then [] else [ReplySent command groups_not_supported])"
  obtain post where p: "run_events subscribe command s = ?pre @ SubscribeCalled command # post"
    and q: "\<forall>c. SubscribeCalled c \<notin> set post"
    by (auto simp add: execute_events_cases split: sum.splits py_exception.splits)
  have "IsPrivateCalled command \<in> set ?pre \<and> (\<forall>c. SubscribeCalled c \<notin> set ?pre)" by simp
  with p q show ?thesis by blast
qed

subsection \<open>The success reply\<close>

text \<open>
  Claim C4, as stated: for every command for which
  \<^verbatim>\<open>subscriptions.subscribe(command)\<close> returns a channel value, \<^verbatim>\<open>execute\<close>
  sends the success reply. It fails for a returned value without the key \<open>name\<close>: the
  subscript raises \<^verbatim>\<open>KeyError('name')\<close>, which leaves \<^verbatim>\<open>execute\<close>, and no
  reply is sent.
\<close>

theorem keyless_channel_no_reply_counterexample:
  "is_private u1_command
     \<and> fst (returning [] u1_command ()) = Inr []
     \<and> run_replies (returning []) u1_command () = []
     \<and> run_result (returning []) u1_command () = Inl (KeyError ''name'')"
  by (simp add: run_replies_def execute_events_cases run_result_cases returning_def
      format_success_def getitem_def is_private_def u1_command_def u1_def)

text \<open>
  Claim C4, amended. For every command for which
  \<^verbatim>\<open>subscriptions.subscribe(command)\<close> returns a channel value \<open>c\<close> that has the keys
  \<open>name\<close> and \<open>url\<close>, \<^verbatim>\<open>execute\<close> returns normally and its last reply (after the
  group notice, when the command is not private) is the text made of
  \<^verbatim>\<open>Successfully subscribed to\<close>, a space, \<open>c['name']\<close> in double quotes (character
  0x22), a space, and \<open>c['url']\<close> after an at sign in parentheses; the text contains the
  display name and the url as contiguous parts. The instance that follows the theorem is
  the spec's scenario: the private subscriber U1 and the channel named Tech News.
\<close>

theorem success_reply_names_channel:
  assumes "fst (subscribe command s) = Inr c"
    and "map_of c ''name'' = Some name"
    and "map_of c ''url'' = Some url"
  shows "run_result subscribe command s = Inr ()
     \<and> run_replies subscribe command s =
          (if is_private command then [] else [''Groups currently are not supported!''])
          @ [''Successfully subscribed to '' @ [CHR 0x22] @ name @ [CHR 0x22]
               @ '' (@'' @ url @ '')'']
     \<and> ReplySent command
          (''Successfully subscribed to '' @ [CHR 0x22] @ name @ [CHR 0x22]
             @ '' (@'' @ url @ '')'')
          \<in> set (run_events subscribe command s)
     \<and> sublist name
          (''Successfully subscribed to '' @ [CHR 0x22] @ name @ [CHR 0x22]
             @ '' (@'' @ url @ '')'')
     \<and> sublist url
          (''Successfully subscribed to '' @ [CHR 0x22] @ name @ [CHR 0x22]
             @ '' (@'' @ url @ '')'')"
proof -
  have lit: "''Successfully subscribed to '' @ [CHR 0x22] @ name @ [CHR 0x22]
      @ '' (@'' @ url @ '')'' = success_message name url"
    by (simp add: success_message_def)
  have grp: "''Groups currently are not supported!'' = groups_not_supported"
    by (simp add: groups_not_supported_def)
  have fmt: "format_success c = Inr (success_message name url)"
    using assms(2,3) by (rule format_success_both)
  have res: "run_result subscribe command s = Inr ()"
    using assms(1) fmt by (simp add: run_result_cases)
  have ev: "ReplySent command (success_message name url)
      \<in> set (run_events subscribe command s)"
    using assms(1) fmt by (simp add: execute_events_cases)
  have rep: "run_replies subscribe command s =
      (if is_private command then [] else [groups_not_supported])
      @ [success_message name url]"
    using replies_returned [of subscribe command s c name url] assms by simp
  show ?thesis
    unfolding lit grp
    using res ev rep success_message_sublists [of name url] by simp
qed

theorem success_reply_names_channel_witness:
  "fst (returning tech_news u1_command ()) = Inr tech_news
     \<and> map_of tech_news ''name'' = Some ''Tech News''
     \<and> map_of tech_news ''url'' = Some ''https://example.com/tech''
     \<and> is_private u1_command
     \<and> run_result (returning tech_news) u1_command () = Inr ()
     \<and> run_replies (returning tech_news) u1_command ()
          = [''Successfully subscribed to '' @ [CHR 0x22] @ ''Tech News'' @ [CHR 0x22]
               @ '' (@https://example.com/tech)'']
     \<and> sublist ''Tech News''
          (''Successfully subscribed to '' @ [CHR 0x22] @ ''Tech News'' @ [CHR 0x22]
             @ '' (@https://example.com/tech)'')
     \<and> sublist ''https://example.com/tech''
          (''Successfully subscribed to '' @ [CHR 0x22] @ ''Tech News'' @ [CHR 0x22]
             @ '' (@https://example.com/tech)'')"
proof -
  have a: "fst (returning tech_news u1_command ()) = Inr tech_news"
    by (simp add: returning_def)
  have b: "map_of tech_news ''name'' = Some ''Tech News''"
    by (simp add: tech_news_def)
  have c: "map_of tech_news ''url'' = Some ''https://example.com/tech''"
    by (simp add: tech_news_def)
  have d: "is_private u1_command"
    by (simp add: is_private_def u1_command_def u1_def)
  show ?thesis
    using success_reply_names_channel [of "returning tech_news" u1_command "()" tech_news
        "''Tech News''" "''https://example.com/tech''"] a b c d by simp
qed

subsection \<open>One reply for a private command\<close>

text \<open>
  Claim C10, as stated: a private command gets exactly one reply whenever
  \<^verbatim>\<open>subscriptions.subscribe\<close> returns a channel or raises
  \<^verbatim>\<open>GenericSubscriptionError\<close>. It fails for a returned channel without the key
  \<open>url\<close>: \<^verbatim>\<open>KeyError('url')\<close> leaves \<^verbatim>\<open>execute\<close> and no reply is sent.
\<close>

theorem private_zero_replies_counterexample:
  "is_private u1_command
     \<and> fst (returning [(''name'', ''Tech News'')] u1_command ())
          = Inr [(''name'', ''Tech News'')]
     \<and> run_replies (returning [(''name'', ''Tech News'')]) u1_command () = []
     \<and> length (run_replies (returning [(''name'', ''Tech News'')]) u1_command ()) \<noteq> 1
     \<and> run_result (returning [(''name'', ''Tech News'')]) u1_command ()
          = Inl (KeyError ''url'')"
  by (simp add: run_replies_def execute_events_cases run_result_cases returning_def
      format_success_def getitem_def is_private_def u1_command_def u1_def)

text \<open>
  Claim C10, amended. For every command whose context is private, if
  \<^verbatim>\<open>subscriptions.subscribe\<close> returns a channel that has the keys \<open>name\<close> and
  \<open>url\<close>, or raises \<^verbatim>\<open>GenericSubscriptionError\<close>, then \<^verbatim>\<open>execute\<close> sends
  exactly one reply and returns normally: the success text in the first case, the error
  text in the second.
\<close>

theorem private_exactly_one_reply:
  assumes "is_private command"
    and "(\<exists>c name url. fst (subscribe command s) = Inr c
            \<and> map_of c ''name'' = Some name \<and> map_of c ''url'' = Some url)
         \<or> (\<exists>msg. fst (subscribe command s) = Inl (GenericSubscriptionError msg))"
  shows "length (run_replies subscribe command s) = 1
     \<and> run_result subscribe command s = Inr ()
     \<and> (\<forall>c name url. fst (subscribe command s) = Inr c
            \<and> map_of c ''name'' = Some name \<and> map_of c ''url'' = Some url
          \<longrightarrow> run_replies subscribe command s = [success_message name url])
     \<and> (\<forall>msg. fst (subscribe command s) = Inl (GenericSubscriptionError msg)
          \<longrightarrow> run_replies subscribe command s = [msg])"
proof -
  have ret: "run_replies subscribe command s = [success_message name url]"
    if "fst (subscribe command s) = Inr c" "map_of c ''name'' = Some name"
      "map_of c ''url'' = Some url" for c name url
    using replies_returned [of subscribe command s c name url] that assms(1) by simp
  have err: "run_replies subscribe command s = [msg]"
    if "fst (subscribe command s) = Inl (GenericSubscriptionError msg)" for msg
    using replies_generic [of subscribe command s msg] that assms(1) by simp
  have len: "length (run_replies subscribe command s) = 1"
    using assms(2) ret err by fastforce
  have res: "run_result subscribe command s = Inr ()"
    using assms(2) by (auto simp add: run_result_cases format_success_both)
  from len res ret err show ?thesis by blast
qed

theorem private_exactly_one_reply_witness:
  "is_private u1_command
     \<and> fst (returning tech_news u1_command ()) = Inr tech_news
     \<and> run_replies (returning tech_news) u1_command ()
          = [success_message ''Tech News'' ''https://example.com/tech'']
     \<and> fst (raising (GenericSubscriptionError ''Channel not found'') u1_command ())
          = Inl (GenericSubscriptionError ''Channel not found'')
     \<and> run_replies (raising (GenericSubscriptionError ''Channel not found'')) u1_command ()
          = [''Channel not found'']
     \<and> length (run_replies (raising (GenericSubscriptionError ''Channel not found''))
          u1_command ()) = 1"
proof -
  have p: "is_private u1_command"
    by (simp add: is_private_def u1_command_def u1_def)
  have a: "fst (returning tech_news u1_command ()) = Inr tech_news"
    by (simp add: returning_def)
  have b: "map_of tech_news ''name'' = Some ''Tech News''"
    and c: "map_of tech_news ''url'' = Some ''https://example.com/tech''"
    by (simp_all add: tech_news_def)
  have e: "fst (raising (GenericSubscriptionError ''Channel not found'') u1_command ())
          = Inl (GenericSubscriptionError ''Channel not found'')"
    by (simp add: raising_def)
  have h1: "(\<exists>c name url. fst (returning tech_news u1_command ()) = Inr c
            \<and> map_of c ''name'' = Some name \<and> map_of c ''url'' = Some url)
         \<or> (\<exists>msg. fst (returning tech_news u1_command ()) = Inl (GenericSubscriptionError msg))"
    using a b c by blast
  have h2: "(\<exists>c name url.
            fst (raising (GenericSubscriptionError ''Channel not found'') u1_command ()) = Inr c
            \<and> map_of c ''name'' = Some name \<and> map_of c ''url'' = Some url)
         \<or> (\<exists>msg. fst (raising (GenericSubscriptionError ''Channel not found'') u1_command ())
               = Inl (GenericSubscriptionError msg))"
    using e by blast
  show ?thesis
    using private_exactly_one_reply [of u1_command "returning tech_news" "()"]
      private_exactly_one_reply [of u1_command
        "raising (GenericSubscriptionError ''Channel not found'')" "()"] p h1 h2 a b c e
    by simp
qed

subsection \<open>Exceptions the handler does not catch\<close>

text \<open>
  Claim C9. \<^verbatim>\<open>execute\<close> catches \<^verbatim>\<open>GenericSubscriptionError\<close> only. For every
  command: if \<^verbatim>\<open>subscriptions.subscribe\<close> raises an exception \<open>e\<close> of another
  class, \<open>e\<close> leaves \<^verbatim>\<open>execute\<close>; if the returned value lacks the key \<open>name\<close>,
  \<^verbatim>\<open>KeyError('name')\<close> leaves it; if it has \<open>name\<close> and lacks \<open>url\<close>,
  \<^verbatim>\<open>KeyError('url')\<close> leaves it. In each case no success text is among the replies
  sent.
\<close>

theorem uncaught_exceptions_propagate:
  "((\<forall>m. e \<noteq> GenericSubscriptionError m) \<and> fst (subscribe command s) = Inl e
      \<longrightarrow> run_result subscribe command s = Inl e
          \<and> (\<forall>name url. success_message name url \<notin> set (run_replies subscribe command s)))
   \<and> (fst (subscribe command s) = Inr c \<and> map_of c ''name'' = None
      \<longrightarrow> run_result subscribe command s = Inl (KeyError ''name'')
          \<and> (\<forall>name url. success_message name url \<notin> set (run_replies subscribe command s)))
   \<and> (fst (subscribe command s) = Inr c \<and> map_of c ''name'' = Some n \<and> map_of c ''url'' = None
      \<longrightarrow> run_result subscribe command s = Inl (KeyError ''url'')
          \<and> (\<forall>name url. success_message name url \<notin> set (run_replies subscribe command s)))"
proof (intro conjI impI)
  assume a: "(\<forall>m. e \<noteq> GenericSubscriptionError m) \<and> fst (subscribe command s) = Inl e"
  then show r: "run_result subscribe command s = Inl e"
    by (cases e) (simp_all add: run_result_cases)
  show "\<forall>name url. success_message name url \<notin> set (run_replies subscribe command s)"
    using no_success_among_propagating [of subscribe command s e] r by blast
next
  assume a: "fst (subscribe command s) = Inr c \<and> map_of c ''name'' = None"
  then show r: "run_result subscribe command s = Inl (KeyError ''name'')"
    by (simp add: run_result_cases format_success_no_name)
  show "\<forall>name url. success_message name url \<notin> set (run_replies subscribe command s)"
    using no_success_among_propagating [of subscribe command s "KeyError ''name''"] r by blast
next
  assume a: "fst (subscribe command s) = Inr c \<and> map_of c ''name'' = Some n
    \<and> map_of c ''url'' = None"
  then show r: "run_result subscribe command s = Inl (KeyError ''url'')"
    by (simp add: run_result_cases format_success_no_url)
  show "\<forall>name url. success_message name url \<notin> set (run_replies subscribe command s)"
    using no_success_among_propagating [of subscribe command s "KeyError ''url''"] r by blast
qed

theorem uncaught_exceptions_propagate_witness:
  "run_result (raising (OtherException ''ValueError'')) u1_command ()
      = Inl (OtherException ''ValueError'')
   \<and> run_result (returning [(''url'', ''https://example.com/tech'')]) u1_command ()
      = Inl (KeyError ''name'')
   \<and> run_result (returning [(''name'', ''Tech News'')]) u1_command ()
      = Inl (KeyError ''url'')
   \<and> success_message ''Tech News'' ''https://example.com/tech''
      \<notin> set (run_replies (returning [(''name'', ''Tech News'')]) u1_command ())"
proof -
  have a: "(\<forall>m. OtherException ''ValueError'' \<noteq> GenericSubscriptionError m)
     \<and> fst (raising (OtherException ''ValueError'') u1_command ())
         = Inl (OtherException ''ValueError'')"
    by (simp add: raising_def)
  have b: "fst (returning [(''url'', ''https://example.com/tech'')] u1_command ())
         = Inr [(''url'', ''https://example.com/tech'')]
     \<and> map_of [(''url'', ''https://example.com/tech'')] ''name'' = None"
    by (simp add: returning_def)
  have c: "fst (returning [(''name'', ''Tech News'')] u1_command ())
         = Inr [(''name'', ''Tech News'')]
     \<and> map_of [(''name'', ''Tech News'')] ''name'' = Some ''Tech News''
     \<and> map_of [(''name'', ''Tech News'')] ''url'' = None"
    by (simp add: returning_def)
  show ?thesis
    using a b c
      uncaught_exceptions_propagate [of "OtherException ''ValueError''"
        "raising (OtherException ''ValueError'')" u1_command "()"]
      uncaught_exceptions_propagate [of _ "returning [(''url'', ''https://example.com/tech'')]"
        u1_command "()" "[(''url'', ''https://example.com/tech'')]"]
      uncaught_exceptions_propagate [of _ "returning [(''name'', ''Tech News'')]"
        u1_command "()" "[(''name'', ''Tech News'')]" "''Tech News''"]
    by blast
qed

subsection \<open>A command from a group chat\<close>

text \<open>
  Claim C2, as stated: every command whose context is not private gets at least two
  replies. It fails when \<^verbatim>\<open>subscriptions.subscribe\<close> raises an exception that is not
  a \<^verbatim>\<open>GenericSubscriptionError\<close>: the group notice is then the only reply, and the
  exception leaves \<^verbatim>\<open>execute\<close>.
\<close>

theorem group_command_one_reply_counterexample:
  "\<not> is_private g1_command
     \<and> run_replies (raising (OtherException ''ValueError'')) g1_command ()
          = [groups_not_supported]
     \<and> \<not> 2 \<le> length (run_replies (raising (OtherException ''ValueError'')) g1_command ())
     \<and> run_result (raising (OtherException ''ValueError'')) g1_command ()
          = Inl (OtherException ''ValueError'')"
  by (simp add: run_replies_def execute_events_cases run_result_cases raising_def
      is_private_def g1_command_def g1_def)

text \<open>
  Claim C2, amended. For every command whose context is not private, if
  \<^verbatim>\<open>subscriptions.subscribe\<close> returns a channel with the keys \<open>name\<close> and
  \<open>url\<close> or raises \<^verbatim>\<open>GenericSubscriptionError\<close>, then \<^verbatim>\<open>execute\<close> sends
  exactly two replies: first the group notice, then the success text (when the service
  returned) or the error text (when it raised).
\<close>

theorem group_command_two_replies:
  assumes "\<not> is_private command"
    and "(\<exists>c name url. fst (subscribe command s) = Inr c
            \<and> map_of c ''name'' = Some name \<and> map_of c ''url'' = Some url)
         \<or> (\<exists>msg. fst (subscribe command s) = Inl (GenericSubscriptionError msg))"
  shows "length (run_replies subscribe command s) = 2
     \<and> hd (run_replies subscribe command s) = groups_not_supported
     \<and> (\<forall>c name url. fst (subscribe command s) = Inr c
            \<and> map_of c ''name'' = Some name \<and> map_of c ''url'' = Some url
          \<longrightarrow> run_replies subscribe command s
                = [groups_not_supported, success_message name url])
     \<and> (\<forall>msg. fst (subscribe command s) = Inl (GenericSubscriptionError msg)
          \<longrightarrow> run_replies subscribe command s = [groups_not_supported, msg])"
proof -
  have ret: "run_replies subscribe command s = [groups_not_supported, success_message name url]"
    if "fst (subscribe command s) = Inr c" "map_of c ''name'' = Some name"
      "map_of c ''url'' = Some url" for c name url
    using replies_returned [of subscribe command s c name url] that assms(1) by simp
  have err: "run_replies subscribe command s = [groups_not_supported, msg]"
    if "fst (subscribe command s) = Inl (GenericSubscriptionError msg)" for msg
    using replies_generic [of subscribe command s msg] that assms(1) by simp
  have len: "length (run_replies subscribe command s) = 2
     \<and> hd (run_replies subscribe command s) = groups_not_supported"
    using assms(2) ret err by fastforce
  from len ret err show ?thesis by blast
qed

theorem group_command_two_replies_witness:
  "\<not> is_private g1_command
     \<and> fst (returning tech_news g1_command ()) = Inr tech_news
     \<and> run_replies (returning tech_news) g1_command ()
          = [groups_not_supported, success_message ''Tech News'' ''https://example.com/tech'']
     \<and> fst (raising (GenericSubscriptionError ''Channel not found'') g1_command ())
          = Inl (GenericSubscriptionError ''Channel not found'')
     \<and> run_replies (raising (GenericSubscriptionError ''Channel not found'')) g1_command ()
          = [groups_not_supported, ''Channel not found'']"
proof -
  have p: "\<not> is_private g1_command"
    by (simp add: is_private_def g1_command_def g1_def)
  have a: "fst (returning tech_news g1_command ()) = Inr tech_news"
    by (simp add: returning_def)
  have b: "map_of tech_news ''name'' = Some ''Tech News''"
    and c: "map_of tech_news ''url'' = Some ''https://example.com/tech''"
    by (simp_all add: tech_news_def)
  have e: "fst (raising (GenericSubscriptionError ''Channel not found'') g1_command ())
          = Inl (GenericSubscriptionError ''Channel not found'')"
    by (simp add: raising_def)
  have h1: "(\<exists>c name url. fst (returning tech_news g1_command ()) = Inr c
            \<and> map_of c ''name'' = Some name \<and> map_of c ''url'' = Some url)
         \<or> (\<exists>msg. fst (returning tech_news g1_command ()) = Inl (GenericSubscriptionError msg))"
    using a b c by blast
  have h2: "(\<exists>c name url.
            fst (raising (GenericSubscriptionError ''Channel not found'') g1_command ()) = Inr c
            \<and> map_of c ''name'' = Some name \<and> map_of c ''url'' = Some url)
         \<or> (\<exists>msg. fst (raising (GenericSubscriptionError ''Channel not found'') g1_command ())
               = Inl (GenericSubscriptionError msg))"
    using e by blast
  show ?thesis
    using group_command_two_replies [of g1_command "returning tech_news" "()"]
      group_command_two_replies [of g1_command
        "raising (GenericSubscriptionError ''Channel not found'')" "()"] p h1 h2 a b c e
    by simp
qed

text \<open>
  Claim C1 says that a command from a group chat never reaches the subscription service.
  The code at such a command, with a service that stores whoever calls it: after the
  group notice the service is called, its state gains the group's subscription, and the
  success text is sent.
\<close>

theorem group_command_reaches_service:
  "\<not> is_private g1_command
     \<and> run_events (enrolling tech_news) g1_command []
          = [IsPrivateCalled g1_command,
             ReplySent g1_command groups_not_supported,
             SubscribeCalled g1_command,
             ReplySent g1_command (success_message ''Tech News'' ''https://example.com/tech'')]
     \<and> run_service (enrolling tech_news) g1_command [] = [(''G1'', ''tech-news'')]
     \<and> run_result (enrolling tech_news) g1_command [] = Inr ()"
proof -
  have p: "\<not> is_private g1_command"
    by (simp add: is_private_def g1_command_def g1_def)
  have f: "format_success tech_news
      = Inr (success_message ''Tech News'' ''https://example.com/tech'')"
    by (rule format_success_both) (simp_all add: tech_news_def)
  have "run_service (enrolling tech_news) g1_command [] = [(''G1'', ''tech-news'')]"
    by (simp add: run_service_eq enrolling_def g1_command_def g1_def)
  then show ?thesis
    using p f by (simp add: execute_events_cases run_result_cases enrolling_def)
qed

text \<open>
  Claim C3 says that a \<^verbatim>\<open>GenericSubscriptionError\<close> gives exactly one reply, for
  every command. The code at a command from a group chat: the group notice and the error
  text are both sent; when the error's text is the group notice itself, two replies carry
  it.
\<close>

theorem group_command_error_two_replies:
  "\<not> is_private g1_command
     \<and> run_replies (raising (GenericSubscriptionError ''Channel not found'')) g1_command ()
          = [groups_not_supported, ''Channel not found'']
     \<and> length (run_replies (raising (GenericSubscriptionError ''Channel not found''))
          g1_command ()) = 2
     \<and> run_replies (raising (GenericSubscriptionError groups_not_supported)) g1_command ()
          = [groups_not_supported, groups_not_supported]
     \<and> run_result (raising (GenericSubscriptionError ''Channel not found'')) g1_command ()
          = Inr ()"
  by (simp add: run_replies_def execute_events_cases run_result_cases raising_def
      is_private_def g1_command_def g1_def)

section \<open>Properties of the subscription manager\<close>

lemma one_per_pair_count:
  "one_per_pair st \<Longrightarrow> length (pair_subscriptions sid cid st) \<le> 1"
proof (induction st)
  case Nil
  then show ?case by (simp add: pair_subscriptions_def)
next
  case (Cons x st)
  have tl: "one_per_pair st" and fresh: "pair_key x \<notin> set (map pair_key st)"
    using Cons.prems by (simp_all add: one_per_pair_def)
  show ?case
  proof (cases "pair_key x = (sid, cid)")
    case True
    have "\<forall>y\<in>set st. pair_key y \<noteq> (sid, cid)"
      using fresh True by force
    then have "pair_subscriptions sid cid st = []"
      by (simp add: pair_subscriptions_def pair_key_def filter_empty_conv)
    then show ?thesis by (simp add: pair_subscriptions_def)
  next
    case False
    then have "pair_subscriptions sid cid (x # st) = pair_subscriptions sid cid st"
      by (auto simp add: pair_subscriptions_def pair_key_def)
    then show ?thesis using Cons.IH [OF tl] by simp
  qed
qed

lemma store_add_absent:
  assumes "pair_subscriptions (subscriber_id sub) (channel_id ch) st = []"
  shows "store_add now sub ch st =
    Inr (\<lparr>sub_subscriber = subscriber_id sub, sub_channel = channel_id ch, created = now\<rparr>,
         st @ [\<lparr>sub_subscriber = subscriber_id sub, sub_channel = channel_id ch, created = now\<rparr>])"
  using assms by (simp add: store_add_def Let_def)

lemma store_add_present:
  assumes "pair_subscriptions (subscriber_id sub) (channel_id ch) st \<noteq> []"
  shows "store_add now sub ch st = Inl (AlreadySubscribed ch)"
  using assms by (simp add: store_add_def)

lemma pair_subscriptions_snoc:
  "pair_subscriptions sid cid (st @ [x]) =
     pair_subscriptions sid cid st @ (if pair_key x = (sid, cid) then [x] else [])"
  by (auto simp add: pair_subscriptions_def pair_key_def)

lemma one_per_pair_snoc:
  assumes "one_per_pair st" and "pair_subscriptions (fst (pair_key x)) (snd (pair_key x)) st = []"
  shows "one_per_pair (st @ [x])"
proof -
  have "\<forall>y\<in>set st. pair_key y \<noteq> pair_key x"
    using assms(2) by (simp add: pair_subscriptions_def pair_key_def filter_empty_conv)
  then have "pair_key x \<notin> set (map pair_key st)"
    by force
  then show ?thesis using assms(1) by (simp add: one_per_pair_def)
qed

lemma store_add_twice:
  assumes "one_per_pair st"
  shows "\<exists>st1. (store_add t1 sub ch st = Inl (AlreadySubscribed ch) \<and> st1 = st
              \<or> (\<exists>x. store_add t1 sub ch st = Inr (x, st1)))
      \<and> store_add t2 sub ch st1 = Inl (AlreadySubscribed ch)
      \<and> length (pair_subscriptions (subscriber_id sub) (channel_id ch) st1) = 1
      \<and> one_per_pair st1"
proof (cases "pair_subscriptions (subscriber_id sub) (channel_id ch) st = []")
  case True
  let ?x = "\<lparr>sub_subscriber = subscriber_id sub, sub_channel = channel_id ch, created = t1\<rparr>"
  have k: "pair_key ?x = (subscriber_id sub, channel_id ch)"
    by (simp add: pair_key_def)
  have first: "store_add t1 sub ch st = Inr (?x, st @ [?x])"
    using True by (rule store_add_absent)
  have one: "length (pair_subscriptions (subscriber_id sub) (channel_id ch) (st @ [?x])) = 1"
    using True k by (simp add: pair_subscriptions_snoc)
  then have "pair_subscriptions (subscriber_id sub) (channel_id ch) (st @ [?x]) \<noteq> []"
    by auto
  then have second: "store_add t2 sub ch (st @ [?x]) = Inl (AlreadySubscribed ch)"
    by (rule store_add_present)
  have "one_per_pair (st @ [?x])"
    using assms True k by (intro one_per_pair_snoc) simp_all
  with first second one show ?thesis by blast
next
  case False
  have first: "store_add t1 sub ch st = Inl (AlreadySubscribed ch)"
    and second: "store_add t2 sub ch st = Inl (AlreadySubscribed ch)"
    using False by (rule store_add_present)+
  have "length (pair_subscriptions (subscriber_id sub) (channel_id ch) st) = 1"
    using one_per_pair_count [OF assms, of "subscriber_id sub" "channel_id ch"] False
    by (cases "pair_subscriptions (subscriber_id sub) (channel_id ch) st") simp_all
  with first second assms show ?thesis by blast
qed

lemma manager_subscribe_twice:
  assumes "private_capable sub"
    and "resolve raw reg = (Inr ch, reg1)"
    and "resolve raw reg1 = (Inr ch, reg2)"
    and "one_per_pair st"
  shows "\<exists>r1 st1. manager_subscribe resolve t1 sub raw (reg, st) = (r1, reg1, st1)
      \<and> manager_subscribe resolve t2 sub raw (reg1, st1)
          = (Inl (AlreadySubscribed ch), reg2, st1)
      \<and> length (pair_subscriptions (subscriber_id sub) (channel_id ch) st1) = 1
      \<and> one_per_pair st1"
proof -
  obtain st1 where
    first: "store_add t1 sub ch st = Inl (AlreadySubscribed ch) \<and> st1 = st
              \<or> (\<exists>x. store_add t1 sub ch st = Inr (x, st1))"
    and second: "store_add t2 sub ch st1 = Inl (AlreadySubscribed ch)"
    and one: "length (pair_subscriptions (subscriber_id sub) (channel_id ch) st1) = 1"
    and inv: "one_per_pair st1"
    using store_add_twice [OF assms(4), of t1 sub ch t2] by blast
  have "\<exists>r1. manager_subscribe resolve t1 sub raw (reg, st) = (r1, reg1, st1)"
    using first assms(1,2) by (auto simp add: manager_subscribe_def)
  moreover have "manager_subscribe resolve t2 sub raw (reg1, st1)
          = (Inl (AlreadySubscribed ch), reg2, st1)"
    using second assms(1,3) by (simp add: manager_subscribe_def)
  ultimately show ?thesis using one inv by blast
qed

lemma manager_subscribe_group:
  "\<not> private_capable sub
     \<Longrightarrow> manager_subscribe resolve now sub raw rs = (Inl UnsupportedContext, rs)"
  by (simp add: manager_subscribe_def)

text \<open>
  Claim C5. Subscribe is idempotent at the subscription level. In every store that holds
  at most one subscription per pair, for every subscriber and channel: when the Store's
  add is called twice with the pair, the second call signals \<open>AlreadySubscribed\<close>, and
  the store then holds exactly one subscription for the pair (and still at most one for
  every pair). The same holds through the manager, for a subscriber whose context is
  private-capable and an identifier that resolves to the channel on both calls: the second
  \<open>manager_subscribe\<close> signals \<open>AlreadySubscribed\<close> with the channel and leaves the
  store as the first call left it.
\<close>

theorem subscribe_twice_idempotent:
  assumes "one_per_pair st"
  shows "(\<exists>st1. (store_add t1 sub ch st = Inl (AlreadySubscribed ch) \<and> st1 = st
               \<or> (\<exists>x. store_add t1 sub ch st = Inr (x, st1)))
           \<and> store_add t2 sub ch st1 = Inl (AlreadySubscribed ch)
           \<and> length (pair_subscriptions (subscriber_id sub) (channel_id ch) st1) = 1
           \<and> one_per_pair st1)
     \<and> (private_capable sub \<and> resolve raw reg = (Inr ch, reg1)
          \<and> resolve raw reg1 = (Inr ch, reg2)
        \<longrightarrow> (\<exists>r1 st1. manager_subscribe resolve t1 sub raw (reg, st) = (r1, reg1, st1)
              \<and> manager_subscribe resolve t2 sub raw (reg1, st1)
                  = (Inl (AlreadySubscribed ch), reg2, st1)
              \<and> length (pair_subscriptions (subscriber_id sub) (channel_id ch) st1) = 1
              \<and> one_per_pair st1))"
  using store_add_twice [OF assms, of t1 sub ch t2]
    manager_subscribe_twice [of sub resolve raw reg ch reg1 reg2 st t1 t2] assms
  by blast

theorem subscribe_twice_idempotent_witness:
  "one_per_pair []
     \<and> private_capable u1
     \<and> tech_registry ''tech-news'' () = (Inr tech_channel, ())
     \<and> manager_subscribe tech_registry 1 u1 ''tech-news'' ((), [])
         = (Inr tech_channel, (),
            [\<lparr>sub_subscriber = ''U1'', sub_channel = ''tech-news'', created = 1\<rparr>])
     \<and> manager_subscribe tech_registry 2 u1 ''tech-news''
          ((), [\<lparr>sub_subscriber = ''U1'', sub_channel = ''tech-news'', created = 1\<rparr>])
         = (Inl (AlreadySubscribed tech_channel), (),
            [\<lparr>sub_subscriber = ''U1'', sub_channel = ''tech-news'', created = 1\<rparr>])
     \<and> length (pair_subscriptions ''U1'' ''tech-news''
          [\<lparr>sub_subscriber = ''U1'', sub_channel = ''tech-news'', created = 1\<rparr>]) = 1"
proof -
  have a: "private_capable u1" by (simp add: u1_def)
  have b: "tech_registry ''tech-news'' () = (Inr tech_channel, ())"
    by (simp add: tech_registry_def)
  have c: "one_per_pair []" by (simp add: one_per_pair_def)
  have d: "manager_subscribe tech_registry 1 u1 ''tech-news'' ((), [])
         = (Inr tech_channel, (),
            [\<lparr>sub_subscriber = ''U1'', sub_channel = ''tech-news'', created = 1\<rparr>])"
    by (simp add: manager_subscribe_def tech_registry_def store_add_def u1_def
        pair_subscriptions_def tech_channel_def Let_def)
  show ?thesis
    using subscribe_twice_idempotent [OF c, of 1 u1 tech_channel 2 tech_registry
        "''tech-news''" "()" "()" "()"] a b c d
    by (simp add: u1_def tech_channel_def)
qed

section \<open>Properties of the fanout dispatcher\<close>

lemma has_success_snoc:
  "has_success ch i s (rs @ [record_outcome_of ch' i' s' out]) =
     (has_success ch i s rs \<or> (ch' = ch \<and> i' = i \<and> s' = s \<and> out = Succeeded))"
  by (auto simp add: has_success_def record_outcome_of_def)

lemma deliveries_of_transport [simp]:
  "deliveries_of ch i s (d\<lparr>transport := t\<rparr>) = deliveries_of ch i s d"
  by (simp add: deliveries_of_def)

lemma deliveries_of_records [simp]:
  "deliveries_of ch i s (d\<lparr>records := rs\<rparr>) = deliveries_of ch i s d"
  by (simp add: deliveries_of_def)

lemma deliveries_of_delivered:
  "deliveries_of ch i s (d\<lparr>delivered := delivered d @ [(ch', i', s')]\<rparr>) =
     deliveries_of ch i s d + (if ch' = ch \<and> i' = i \<and> s' = s then 1 else 0)"
  by (simp add: deliveries_of_def)

lemma attempt_keeps_success:
  "has_success ch i s (records d)
     \<Longrightarrow> has_success ch i s (records (attempt_delivery deliver k ch i sub d))"
proof (induction k arbitrary: d)
  case 0
  then show ?case by (simp add: has_success_snoc)
next
  case (Suc k)
  show ?case
  proof (cases "deliver sub i (transport d)")
    case (Pair out t)
    then show ?thesis
      using Suc.prems Suc.IH [of "d\<lparr>transport := t\<rparr>"]
      by (cases out) (simp_all add: has_success_snoc)
  qed
qed

lemma attempt_other_success:
  "s \<noteq> sub \<Longrightarrow>
     has_success ch i s (records (attempt_delivery deliver k ch i sub d))
       = has_success ch i s (records d)"
proof (induction k arbitrary: d)
  case 0
  then show ?case by (simp add: has_success_snoc)
next
  case (Suc k)
  show ?case
  proof (cases "deliver sub i (transport d)")
    case (Pair out t)
    then show ?thesis
      using Suc.prems Suc.IH [of "d\<lparr>transport := t\<rparr>"]
      by (cases out) (simp_all add: has_success_snoc)
  qed
qed

lemma attempt_other_deliveries:
  "s \<noteq> sub \<Longrightarrow>
     deliveries_of ch i s (attempt_delivery deliver k ch i sub d) = deliveries_of ch i s d"
proof (induction k arbitrary: d)
  case 0
  then show ?case by simp
next
  case (Suc k)
  show ?case
  proof (cases "deliver sub i (transport d)")
    case (Pair out t)
    then show ?thesis
      using Suc.prems Suc.IH [of "d\<lparr>transport := t\<rparr>"]
      by (cases out) (simp_all add: deliveries_of_def)
  qed
qed

lemma attempt_own_deliveries:
  "\<not> has_success ch i sub (records d) \<Longrightarrow>
     deliveries_of ch i sub (attempt_delivery deliver k ch i sub d)
       = deliveries_of ch i sub d
         + (if has_success ch i sub (records (attempt_delivery deliver k ch i sub d))
            then 1 else 0)"
proof (induction k arbitrary: d)
  case 0
  then show ?case by (simp add: has_success_snoc)
next
  case (Suc k)
  show ?case
  proof (cases "deliver sub i (transport d)")
    case (Pair out t)
    then show ?thesis
      using Suc.prems Suc.IH [of "d\<lparr>transport := t\<rparr>"]
      by (cases out) (simp_all add: has_success_snoc deliveries_of_def)
  qed
qed

lemma attempt_at_most_once:
  assumes "deliveries_of ch i s d \<le> (if has_success ch i s (records d) then 1 else 0)"
    and "\<not> has_success ch i sub (records d)"
  shows "deliveries_of ch i s (attempt_delivery deliver k ch i sub d)
     \<le> (if has_success ch i s (records (attempt_delivery deliver k ch i sub d)) then 1 else 0)"
proof (cases "s = sub")
  case True
  then have "deliveries_of ch i sub d = 0"
    using assms by simp
  then show ?thesis
    using True attempt_own_deliveries [OF assms(2), of deliver k] by simp
next
  case False
  then show ?thesis
    using assms(1) by (simp add: attempt_other_success attempt_other_deliveries)
qed

lemma dispatch_at_most_once:
  "deliveries_of ch i s d \<le> (if has_success ch i s (records d) then 1 else 0)
     \<Longrightarrow> deliveries_of ch i s (dispatch deliver cap ch i subs d)
       \<le> (if has_success ch i s (records (dispatch deliver cap ch i subs d)) then 1 else 0)"
proof (induction subs arbitrary: d)
  case Nil
  then show ?case by simp
next
  case (Cons sub subs)
  show ?case
  proof (cases "has_success ch i sub (records d)")
    case True
    then show ?thesis using Cons.IH [OF Cons.prems] by simp
  next
    case False
    have "deliveries_of ch i s (attempt_delivery deliver cap ch i sub d)
     \<le> (if has_success ch i s (records (attempt_delivery deliver cap ch i sub d)) then 1 else 0)"
      using Cons.prems False by (rule attempt_at_most_once)
    then show ?thesis using False Cons.IH by simp
  qed
qed

lemma dispatch_skips_recorded:
  "has_success ch i s (records d)
     \<Longrightarrow> deliveries_of ch i s (dispatch deliver cap ch i subs d) = deliveries_of ch i s d
       \<and> has_success ch i s (records (dispatch deliver cap ch i subs d))"
proof (induction subs arbitrary: d)
  case Nil
  then show ?case by simp
next
  case (Cons sub subs)
  show ?case
  proof (cases "has_success ch i sub (records d)")
    case True
    then show ?thesis using Cons.IH [OF Cons.prems] by simp
  next
    case False
    then have ne: "s \<noteq> sub" using Cons.prems by auto
    have "has_success ch i s (records (attempt_delivery deliver cap ch i sub d))"
      using Cons.prems by (rule attempt_keeps_success)
    from Cons.IH [OF this] show ?thesis
      using False ne by (simp add: attempt_other_deliveries)
  qed
qed

text \<open>
  Claim C7. At-most-once delivery per item and subscriber. Take any dispatcher state in
  which the subscriber has at most one accepted delivery of item \<open>i\<close> of channel \<open>ch\<close>,
  and has a successful DeliveryRecord if it has one (a dispatcher that has delivered
  nothing is such a state). After a dispatch of \<open>i\<close> to any snapshot \<open>subs\<close> the
  subscriber has at most one accepted delivery of \<open>i\<close>, the state is again of that kind
  (so the dispatch can be run again, as after a restart), and a subscriber that had a
  successful DeliveryRecord before the dispatch has received nothing more.
\<close>

theorem at_most_once_delivery:
  assumes "deliveries_of ch i sub d \<le> (if has_success ch i sub (records d) then 1 else 0)"
  shows "deliveries_of ch i sub (dispatch deliver cap ch i subs d) \<le> 1
     \<and> deliveries_of ch i sub (dispatch deliver cap ch i subs d)
         \<le> (if has_success ch i sub (records (dispatch deliver cap ch i subs d)) then 1 else 0)
     \<and> (has_success ch i sub (records d)
          \<longrightarrow> deliveries_of ch i sub (dispatch deliver cap ch i subs d)
                = deliveries_of ch i sub d)"
proof -
  have inv: "deliveries_of ch i sub (dispatch deliver cap ch i subs d)
         \<le> (if has_success ch i sub (records (dispatch deliver cap ch i subs d)) then 1 else 0)"
    using assms by (rule dispatch_at_most_once)
  then have "deliveries_of ch i sub (dispatch deliver cap ch i subs d) \<le> 1"
    by (simp split: if_splits)
  then show ?thesis
    using inv dispatch_skips_recorded [of ch i sub d deliver cap subs] by simp
qed

theorem at_most_once_delivery_witness:
  "deliveries_of ''tech-news'' 2 ''U1'' fresh_dispatcher
     \<le> (if has_success ''tech-news'' 2 ''U1'' (records fresh_dispatcher) then 1 else 0)
   \<and> deliveries_of ''tech-news'' 2 ''U1''
        (dispatch scenario_transport 3 ''tech-news'' 2 [''U1'', ''U2'', ''U1''] fresh_dispatcher)
      = 1
   \<and> has_success ''tech-news'' 2 ''U1''
        (records (dispatch scenario_transport 3 ''tech-news'' 2 [''U1'', ''U2'', ''U1'']
           fresh_dispatcher))
   \<and> deliveries_of ''tech-news'' 2 ''U1''
        (dispatch scenario_transport 3 ''tech-news'' 2 [''U1'', ''U2'', ''U1'']
          (dispatch scenario_transport 3 ''tech-news'' 2 [''U1'', ''U2'', ''U1'']
             fresh_dispatcher))
      = 1"
proof -
  let ?d1 = "dispatch scenario_transport 3 ''tech-news'' 2 [''U1'', ''U2'', ''U1'']
    fresh_dispatcher"
  have h: "deliveries_of ''tech-news'' 2 ''U1'' fresh_dispatcher
     \<le> (if has_success ''tech-news'' 2 ''U1'' (records fresh_dispatcher) then 1 else 0)"
    by (simp add: fresh_dispatcher_def deliveries_of_def)
  have d1: "?d1 = \<lparr>records = [record_outcome_of ''tech-news'' 2 ''U1'' Succeeded,
                              record_outcome_of ''tech-news'' 2 ''U2'' Failed],
                   transport = (),
                   delivered = [(''tech-news'', 2, ''U1'')]\<rparr>"
    by (simp add: fresh_dispatcher_def scenario_transport_def has_success_def
        record_outcome_of_def numeral_3_eq_3)
  have one: "deliveries_of ''tech-news'' 2 ''U1'' ?d1 = 1"
    and rec: "has_success ''tech-news'' 2 ''U1'' (records ?d1)"
    unfolding d1 by (simp_all add: deliveries_of_def has_success_def record_outcome_of_def)
  have inv: "deliveries_of ''tech-news'' 2 ''U1'' ?d1
     \<le> (if has_success ''tech-news'' 2 ''U1'' (records ?d1) then 1 else 0)"
    using at_most_once_delivery [OF h, of scenario_transport 3 "[''U1'', ''U2'', ''U1'']"]
    by blast
  show ?thesis
    using at_most_once_delivery [OF inv, of scenario_transport 3 "[''U1'', ''U2'', ''U1'']"]
      h one rec by simp
qed

end
